theory Spec2Isabelle
  imports Complex_Main
begin

section \<open>JavaScript numbers\<close>

text \<open>
  The calculator of \<^verbatim>\<open>src/components/Calculator.tsx\<close> computes with JavaScript numbers:
  IEEE 754 binary64 values. A number is NaN, an infinity, or a finite value in
  sign-magnitude form: \<open>Finite s m\<close> stands for \<open>m\<close> when \<open>s\<close> is \<open>False\<close> and for \<open>- m\<close>
  when \<open>s\<close> is \<open>True\<close>, with \<open>0 \<le> m\<close>; \<open>Finite True 0\<close> is the negative zero. The magnitude
  is an exact rational; every arithmetic result is rounded to the nearest binary64 value
  (ties to even) by \<open>round_double\<close>.
\<close>

datatype number = NaN | Infinity bool | Finite bool rat

definition zero :: number where
  "zero = Finite False 0"

text \<open>
  \<open>ndigits b x\<close> is the number of digits of the positive integer \<open>x\<close> in base \<open>b\<close>, and
  \<open>floor_log b m\<close> the integer \<open>e\<close> with \<open>b ^ e \<le> m < b ^ (e + 1)\<close>, for a rational \<open>0 < m\<close>.
\<close>

function ndigits :: "int \<Rightarrow> int \<Rightarrow> int" where
  "ndigits b x = (if 1 < b \<and> 0 < x then ndigits b (x div b) + 1 else 0)"
  by pat_completeness auto
termination
  by (relation "measure (\<lambda>(b, x). nat x)") (auto simp: pos_imp_zdiv_pos_iff intro!: int_div_less_self)

declare ndigits.simps [simp del]

definition floor_log :: "int \<Rightarrow> rat \<Rightarrow> int" where
  "floor_log b m =
     (let (p, q) = quotient_of m;
          d = ndigits b p - ndigits b q
      in if of_int b powi d \<le> m then d else d - 1)"

definition round_half_even :: "rat \<Rightarrow> int" where
  "round_half_even x =
     (let f = \<lfloor>x\<rfloor>; d = x - of_int f
      in if d < 1 / 2 then f else if 1 / 2 < d then f + 1 else if even f then f else f + 1)"

text \<open>
  Rounding of a positive magnitude to binary64: 53 significant bits, the exponent of the
  leading bit not below \<open>-1022\<close> (smaller magnitudes are subnormal, in units of
  \<open>2 ^ -1074\<close>), and overflow to infinity from \<open>2 ^ 1024\<close> on.
\<close>

definition round_double :: "bool \<Rightarrow> rat \<Rightarrow> number" where
  "round_double s m =
     (if m = 0 then Finite s 0
      else let e = max (floor_log 2 m) (- 1022);
               q = 2 powi (e - 52);
               v = of_int (round_half_even (m / q)) * q
           in if 2 powi 1024 \<le> v then Infinity s else Finite s v)"

definition signed :: "bool \<Rightarrow> rat \<Rightarrow> rat" where
  "signed s m = (if s then - m else m)"

fun js_neg :: "number \<Rightarrow> number" where
  "js_neg NaN = NaN"
| "js_neg (Infinity s) = Infinity (\<not> s)"
| "js_neg (Finite s m) = Finite (\<not> s) m"

text \<open>The operators \<^verbatim>\<open>+\<close>, \<^verbatim>\<open>-\<close>, \<^verbatim>\<open>*\<close> and \<^verbatim>\<open>/\<close> on numbers.\<close>

fun js_add :: "number \<Rightarrow> number \<Rightarrow> number" where
  "js_add NaN y = NaN"
| "js_add x NaN = NaN"
| "js_add (Infinity s) (Infinity t) = (if s = t then Infinity s else NaN)"
| "js_add (Infinity s) (Finite t b) = Infinity s"
| "js_add (Finite s a) (Infinity t) = Infinity t"
| "js_add (Finite s a) (Finite t b) =
     (let v = signed s a + signed t b
      in if v = 0 then Finite (s \<and> t) 0 else round_double (v < 0) \<bar>v\<bar>)"

definition js_sub :: "number \<Rightarrow> number \<Rightarrow> number" where
  "js_sub x y = js_add x (js_neg y)"

fun js_mul :: "number \<Rightarrow> number \<Rightarrow> number" where
  "js_mul NaN y = NaN"
| "js_mul x NaN = NaN"
| "js_mul (Infinity s) (Infinity t) = Infinity (s \<noteq> t)"
| "js_mul (Infinity s) (Finite t b) = (if b = 0 then NaN else Infinity (s \<noteq> t))"
| "js_mul (Finite s a) (Infinity t) = (if a = 0 then NaN else Infinity (s \<noteq> t))"
| "js_mul (Finite s a) (Finite t b) = round_double (s \<noteq> t) (a * b)"

fun js_div :: "number \<Rightarrow> number \<Rightarrow> number" where
  "js_div NaN y = NaN"
| "js_div x NaN = NaN"
| "js_div (Infinity s) (Infinity t) = NaN"
| "js_div (Infinity s) (Finite t b) = Infinity (s \<noteq> t)"
| "js_div (Finite s a) (Infinity t) = Finite (s \<noteq> t) 0"
| "js_div (Finite s a) (Finite t b) =
     (if b = 0 then (if a = 0 then NaN else Infinity (s \<noteq> t))
      else round_double (s \<noteq> t) (a / b))"

text \<open>\<^verbatim>\<open>isFinite(x)\<close>, the truth value of a number (as in \<^verbatim>\<open>x || 0\<close>), and \<^verbatim>\<open>x === y\<close>.\<close>

fun isFinite :: "number \<Rightarrow> bool" where
  "isFinite (Finite s m) = True"
| "isFinite x = False"

fun truthy :: "number \<Rightarrow> bool" where
  "truthy NaN = False"
| "truthy (Infinity s) = True"
| "truthy (Finite s m) = (m \<noteq> 0)"

fun strict_eq :: "number \<Rightarrow> number \<Rightarrow> bool" where
  "strict_eq NaN y = False"
| "strict_eq x NaN = False"
| "strict_eq (Finite s a) (Finite t b) = (a = b \<and> (s = t \<or> a = 0))"
| "strict_eq x y = (x = y)"

section \<open>Numbers and strings\<close>

text \<open>
  A \<open>char\<close> is read as a UTF-16 code unit below 256; every string this component builds
  stays in that range (the keys \<^verbatim>\<open>\<times>\<close> and \<^verbatim>\<open>\<div>\<close> are the code units \<open>0xD7\<close> and \<open>0xF7\<close>).
\<close>

definition is_digit :: "char \<Rightarrow> bool" where
  "is_digit c = (48 \<le> (of_char c :: nat) \<and> (of_char c :: nat) \<le> 57)"

definition digit_val :: "char \<Rightarrow> int" where
  "digit_val c = of_char c - 48"

definition digit_char :: "int \<Rightarrow> char" where
  "digit_char d = char_of (48 + d)"

text \<open>The value of a string of decimal digits, and the decimal digits of an integer \<open>0 \<le> n\<close>.\<close>

definition digits_val :: "string \<Rightarrow> int" where
  "digits_val ds = foldl (\<lambda>acc c. 10 * acc + digit_val c) 0 ds"

function digits_of :: "int \<Rightarrow> string" where
  "digits_of n = (if n < 10 then [digit_char n] else digits_of (n div 10) @ [digit_char (n mod 10)])"
  by pat_completeness auto
termination
  by (relation "measure nat") auto

declare digits_of.simps [simp del]

subsection \<open>\<^verbatim>\<open>parseFloat\<close>\<close>

text \<open>
  \<^verbatim>\<open>parseFloat\<close> skips leading white space and reads the longest prefix that is a
  \<^verbatim>\<open>StrDecimalLiteral\<close>: an optional sign, then \<^verbatim>\<open>Infinity\<close>, or digits with an optional
  fraction and an optional exponent; with no such prefix the result is NaN. The exact decimal
  value read is rounded to binary64, as the JavaScript engines do.
\<close>

definition is_white :: "char \<Rightarrow> bool" where
  "is_white c = ((of_char c :: nat) \<in> {9, 10, 11, 12, 13, 32, 160})"

text \<open>The exponent part \<^verbatim>\<open>e\<close>, sign, digits; it counts only when a digit follows.\<close>

definition exponent_part :: "string \<Rightarrow> int" where
  "exponent_part r =
     (case r of
        [] \<Rightarrow> 0
      | c # r1 \<Rightarrow>
          if c = CHR ''e'' \<or> c = CHR ''E'' then
            (case r1 of
               [] \<Rightarrow> 0
             | d # r2 \<Rightarrow>
                 if d = CHR ''-'' then - digits_val (takeWhile is_digit r2)
                 else if d = CHR ''+'' then digits_val (takeWhile is_digit r2)
                 else digits_val (takeWhile is_digit r1))
          else 0)"

definition parse_unsigned :: "bool \<Rightarrow> string \<Rightarrow> number" where
  "parse_unsigned s t =
     (if take 8 t = ''Infinity'' then Infinity s
      else let ip = takeWhile is_digit t;
               r1 = dropWhile is_digit t;
               dot = (r1 \<noteq> [] \<and> hd r1 = CHR ''.'');
               fp = (if dot then takeWhile is_digit (tl r1) else []);
               r2 = (if dot then dropWhile is_digit (tl r1) else r1)
           in if ip = [] \<and> fp = [] then NaN
              else round_double s
                     (of_int (digits_val (ip @ fp)) * 10 powi (exponent_part r2 - int (length fp))))"

definition parseFloat :: "string \<Rightarrow> number" where
  "parseFloat str =
     (case dropWhile is_white str of
        [] \<Rightarrow> NaN
      | c # r \<Rightarrow>
          if c = CHR ''-'' then parse_unsigned True r
          else if c = CHR ''+'' then parse_unsigned False r
          else parse_unsigned False (c # r))"

subsection \<open>\<^verbatim>\<open>Number.prototype.toPrecision\<close>\<close>

text \<open>
  \<open>sig_round p x\<close> gives the integers \<open>(n, e)\<close> with \<open>10 ^ (p - 1) \<le> n < 10 ^ p\<close> for which
  \<open>n * 10 ^ (e - p + 1)\<close> is closest to the positive \<open>x\<close>, the larger one on a tie.
\<close>

definition sig_round :: "nat \<Rightarrow> rat \<Rightarrow> int \<times> int" where
  "sig_round p x =
     (let e = floor_log 10 x;
          n = \<lfloor>x / 10 powi (e - int p + 1) + 1 / 2\<rfloor>
      in if n = 10 ^ p then (10 ^ (p - 1), e + 1) else (n, e))"

definition exp_notation :: "string \<Rightarrow> int \<Rightarrow> string" where
  "exp_notation m e =
     (if length m = 1 then m else hd m # CHR ''.'' # tl m)
       @ ''e'' @ (if 0 < e then ''+'' else ''-'') @ digits_of \<bar>e\<bar>"

subsection \<open>\<^verbatim>\<open>String(x)\<close> for a number\<close>

text \<open>
  The digits of \<^verbatim>\<open>String(x)\<close> are the shortest decimal \<open>s * 10 ^ (n - k)\<close>, with \<open>k\<close> digits
  in \<open>s\<close>, that rounds to \<open>x\<close>; among several of the same length the closest to \<open>x\<close>.
  \<open>shortest_at m k\<close> looks for it with \<open>k\<close> digits: only the two \<open>k\<close>-digit decimals
  around \<open>m\<close> can round to \<open>m\<close>.
\<close>

definition shortest_at :: "rat \<Rightarrow> nat \<Rightarrow> (int \<times> int) option" where
  "shortest_at m k =
     (let e = floor_log 10 m;
          sc = 10 powi (e - int k + 1);
          lo = \<lfloor>m / sc\<rfloor>;
          hi = lo + 1;
          okl = (round_double False (of_int lo * sc) = Finite False m);
          okh = (round_double False (of_int hi * sc) = Finite False m);
          dl = m - of_int lo * sc;
          dh = of_int hi * sc - m;
          norm = (\<lambda>c. if c = 10 ^ k then (c div 10, e + 2) else (c, e + 1))
      in if okl \<and> okh then Some (norm (if dl < dh \<or> (dl = dh \<and> even lo) then lo else hi))
         else if okl then Some (norm lo)
         else if okh then Some (norm hi)
         else None)"

text \<open>
  Seventeen digits are enough for every binary64 value; should none of the lengths
  \<open>k, k + 1, \<dots>, 17\<close> do, the closest decimal of 17 digits is taken.
\<close>

fun shortest_from :: "rat \<Rightarrow> nat \<Rightarrow> nat \<Rightarrow> int \<times> int" where
  "shortest_from m k 0 = sig_round 17 m"
| "shortest_from m k (Suc fuel) =
     (case shortest_at m k of Some r \<Rightarrow> r | None \<Rightarrow> shortest_from m (Suc k) fuel)"

definition shortest :: "rat \<Rightarrow> int \<times> int" where
  "shortest m = shortest_from m 1 17"

definition format_digits :: "string \<Rightarrow> int \<Rightarrow> string" where
  "format_digits ds n =
     (let k = int (length ds)
      in if - 5 \<le> n \<and> n \<le> 21 then
           (if k \<le> n then ds @ replicate (nat (n - k)) CHR ''0''
            else if 0 < n then take (nat n) ds @ ''.'' @ drop (nat n) ds
            else ''0.'' @ replicate (nat (- n)) CHR ''0'' @ ds)
         else exp_notation ds (n - 1))"

fun toString :: "number \<Rightarrow> string" where
  "toString NaN = ''NaN''"
| "toString (Infinity s) = (if s then ''-Infinity'' else ''Infinity'')"
| "toString (Finite s m) =
     (if m = 0 then ''0''
      else (if s then ''-'' else '''') @ (let (d, n) = shortest m in format_digits (digits_of d) n))"

text \<open>
  \<^verbatim>\<open>x.toPrecision(p)\<close>, for \<open>1 \<le> p \<le> 100\<close> (the component calls it with \<open>p = 12\<close>, so the
  range error of other precisions cannot arise).
\<close>

fun toPrecision :: "number \<Rightarrow> nat \<Rightarrow> string" where
  "toPrecision (Finite s m) p =
     (if m = 0 then
        (if p = 1 then ''0'' else ''0.'' @ replicate (p - 1) CHR ''0'')
      else
        (let (n, e) = sig_round p m; ds = digits_of n
         in (if s then ''-'' else '''') @
            (if e < - 6 \<or> int p \<le> e then exp_notation ds e
             else if e = int p - 1 then ds
             else if 0 \<le> e then take (nat (e + 1)) ds @ ''.'' @ drop (nat (e + 1)) ds
             else ''0.'' @ replicate (nat (- (e + 1))) CHR ''0'' @ ds)))"
| "toPrecision x p = toString x"

section \<open>The calculator\<close>

record CalculatorState =
  display :: string
  previousValue :: "number option"
  operation :: "string option"
  waitingForOperand :: bool

record Toast =
  title :: string
  description :: string
  variant :: string

definition initialState :: CalculatorState where
  "initialState =
     \<lparr>display = ''0'', previousValue = None, operation = None, waitingForOperand = False\<rparr>"

definition inputNumber :: "CalculatorState \<Rightarrow> string \<Rightarrow> CalculatorState" where
  "inputNumber st num =
     (if waitingForOperand st then st\<lparr>display := num, waitingForOperand := False\<rparr>
      else st\<lparr>display := (if display st = ''0'' then num else display st @ num)\<rparr>)"

definition inputDecimal :: "CalculatorState \<Rightarrow> CalculatorState" where
  "inputDecimal st =
     (if waitingForOperand st then st\<lparr>display := ''0.'', waitingForOperand := False\<rparr>
      else if CHR ''.'' \<notin> set (display st) then st\<lparr>display := display st @ ''.''\<rparr>
      else st)"

definition clear :: "CalculatorState \<Rightarrow> CalculatorState" where
  "clear st = initialState"

text \<open>
  The notifications of \<^verbatim>\<open>performOperation\<close>, and the operator keys whose names are not
  ASCII.
\<close>

definition divideByZeroToast :: Toast where
  "divideByZeroToast =
     \<lparr>title = ''Error'', description = ''Cannot divide by zero'', variant = ''destructive''\<rparr>"

definition invalidToast :: Toast where
  "invalidToast =
     \<lparr>title = ''Error'', description = ''Invalid calculation'', variant = ''destructive''\<rparr>"

definition times_key :: string where
  "times_key = [CHR 0xD7]"

definition divide_key :: string where
  "divide_key = [CHR 0xF7]"

text \<open>
  The \<^verbatim>\<open>switch\<close> over the stored operation. It is left in one of three ways: with a
  result (\<^verbatim>\<open>break\<close>), after the divide-by-zero notification (\<^verbatim>\<open>return\<close>), or through
  \<^verbatim>\<open>default: return\<close>.
\<close>

datatype outcome = Result number | DivideByZero | NoOperation

definition switchOperation :: "string \<Rightarrow> number \<Rightarrow> number \<Rightarrow> outcome" where
  "switchOperation op currentValue inputValue =
     (if op = ''+'' then Result (js_add currentValue inputValue)
      else if op = ''-'' then Result (js_sub currentValue inputValue)
      else if op = times_key then Result (js_mul currentValue inputValue)
      else if op = divide_key then
        (if strict_eq inputValue zero then DivideByZero
         else Result (js_div currentValue inputValue))
      else NoOperation)"

text \<open>
  The part of \<^verbatim>\<open>performOperation\<close> after the \<^verbatim>\<open>switch\<close>: the finiteness check, the
  rounding through \<^verbatim>\<open>toPrecision(12)\<close> and the new state. No operation inside the
  \<^verbatim>\<open>try\<close> block throws, so the \<^verbatim>\<open>catch\<close> branch has no counterpart.
\<close>

definition finishOperation :: "CalculatorState \<Rightarrow> string \<Rightarrow> number \<Rightarrow> CalculatorState \<times> Toast list" where
  "finishOperation st nextOperation result =
     (if \<not> isFinite result then (clear st, [invalidToast])
      else let formattedResult = parseFloat (toPrecision result 12)
           in (\<lparr>display = toString formattedResult,
                previousValue = (if nextOperation = ''='' then None else Some formattedResult),
                operation = (if nextOperation = ''='' then None else Some nextOperation),
                waitingForOperand = True\<rparr>, []))"

definition performOperation :: "CalculatorState \<Rightarrow> string \<Rightarrow> CalculatorState \<times> Toast list" where
  "performOperation st nextOperation =
     (let inputValue = parseFloat (display st)
      in case previousValue st of
           None \<Rightarrow>
             (st\<lparr>previousValue := Some inputValue, operation := Some nextOperation,
                 waitingForOperand := True\<rparr>, [])
         | Some pv \<Rightarrow>
             (case operation st of
                None \<Rightarrow> (st, [])
              | Some op \<Rightarrow>
                  if op = [] then (st, [])
                  else let currentValue = (if truthy pv then pv else zero)
                       in (case switchOperation op currentValue inputValue of
                             Result result \<Rightarrow> finishOperation st nextOperation result
                           | DivideByZero \<Rightarrow> (st, [divideByZeroToast])
                           | NoOperation \<Rightarrow> (st, []))))"

text \<open>
  The events of the keypad: the ten digit buttons, the decimal point, Clear, and the five
  operator buttons. Each event runs to completion on the current state.
\<close>

datatype event = InputNumber string | InputDecimal | Clear | PerformOperation string

fun step :: "CalculatorState \<Rightarrow> event \<Rightarrow> CalculatorState \<times> Toast list" where
  "step st (InputNumber num) = (inputNumber st num, [])"
| "step st InputDecimal = (inputDecimal st, [])"
| "step st Clear = (clear st, [])"
| "step st (PerformOperation op) = performOperation st op"

fun run :: "CalculatorState \<Rightarrow> event list \<Rightarrow> CalculatorState \<times> Toast list" where
  "run st [] = (st, [])"
| "run st (e # es) =
     (let (st1, ts1) = step st e; (st2, ts2) = run st1 es in (st2, ts1 @ ts2))"

definition digit_keys :: "string list" where
  "digit_keys = map (\<lambda>c. [c]) ''0123456789''"

definition operator_keys :: "string list" where
  "operator_keys = [divide_key, times_key, ''-'', ''+'', ''='']"

fun button :: "event \<Rightarrow> bool" where
  "button (InputNumber num) = (num \<in> set digit_keys)"
| "button (PerformOperation op) = (op \<in> set operator_keys)"
| "button e = True"

inductive reachable :: "CalculatorState \<Rightarrow> bool" where
  reachable_init: "reachable initialState"
| reachable_step: "reachable st \<Longrightarrow> button e \<Longrightarrow> reachable (fst (step st e))"

section \<open>Arithmetic of the model\<close>

lemma ndigits_nonneg: "0 \<le> ndigits b x"
proof (induction b x rule: ndigits.induct)
  case (1 b x)
  then show ?case by (subst ndigits.simps) auto
qed

lemma ndigits_pos: "1 < b \<Longrightarrow> 0 < x \<Longrightarrow> 1 \<le> ndigits b x"
  using ndigits_nonneg[of b "x div b"] by (subst ndigits.simps) simp

lemma ndigits_bounds:
  "1 < b \<Longrightarrow> 0 < x \<Longrightarrow> b ^ nat (ndigits b x - 1) \<le> x \<and> x < b ^ nat (ndigits b x)"
proof (induction b x rule: ndigits.induct)
  case (1 b x)
  have dm: "b * (x div b) \<le> x" "x < b * (x div b) + b"
    using mult_div_mod_eq[of b x] pos_mod_sign[of b x] pos_mod_bound[of b x] "1.prems"
    by linarith+
  show ?case
  proof (cases "x < b")
    case True
    then have "x div b = 0" using 1 by simp
    then have "ndigits b x = 1" using 1 by (subst ndigits.simps, subst ndigits.simps) simp
    then show ?thesis using True 1 by simp
  next
    case False
    then have pos: "0 < x div b" using 1 by (simp add: pos_imp_zdiv_pos_iff)
    let ?n = "ndigits b (x div b)"
    have IH: "b ^ nat (?n - 1) \<le> x div b \<and> x div b < b ^ nat ?n"
      using 1 pos by simp
    have n1: "1 \<le> ?n" using ndigits_pos[OF "1.prems"(1) pos] .
    have eq: "ndigits b x = ?n + 1" using 1 by (subst ndigits.simps) simp
    have natn: "nat ?n = Suc (nat (?n - 1))" using n1 by simp
    have "b * b ^ nat (?n - 1) \<le> b * (x div b)" using IH 1 by simp
    also have "\<dots> \<le> x" by (rule dm)
    finally have lo: "b ^ nat ?n \<le> x" using natn by simp
    have "x div b + 1 \<le> b ^ nat ?n" using IH by simp
    then have "b * (x div b + 1) \<le> b * b ^ nat ?n" using 1 by simp
    then have "b * (x div b) + b \<le> b * b ^ nat ?n" by (simp add: algebra_simps)
    with dm(2) have "x < b * b ^ nat ?n" by linarith
    then have hi: "x < b ^ nat (?n + 1)" using n1 by (simp add: nat_add_distrib)
    show ?thesis using lo hi eq by simp
  qed
qed

lemma powi_of_int_bounds:
  assumes "1 < b" "0 < x"
  shows "(of_int b :: rat) powi (ndigits b x - 1) \<le> of_int x" "(of_int x :: rat) < of_int b powi ndigits b x"
proof -
  have n1: "1 \<le> ndigits b x" using ndigits_pos assms by simp
  have "(of_int (b ^ nat (ndigits b x - 1)) :: rat) \<le> of_int x"
    using ndigits_bounds[OF assms] by (simp only: of_int_le_iff)
  then show "(of_int b :: rat) powi (ndigits b x - 1) \<le> of_int x"
    using n1 by (simp add: power_int_def)
  have "(of_int x :: rat) < of_int (b ^ nat (ndigits b x))"
    using ndigits_bounds[OF assms] by (simp only: of_int_less_iff)
  then show "(of_int x :: rat) < of_int b powi ndigits b x"
    using n1 by (simp add: power_int_def)
qed

lemma frac_log_bounds:
  assumes b: "1 < b" and p: "0 < p" and q: "0 < q"
  shows "(of_int b :: rat) powi (ndigits b p - ndigits b q - 1) < of_int p / of_int q"
    and "(of_int p / of_int q :: rat) < of_int b powi (ndigits b p - ndigits b q + 1)"
proof -
  let ?B = "of_int b :: rat"
  have B: "1 < ?B" "0 < ?B" "?B \<noteq> 0" using b by simp_all
  let ?np = "ndigits b p" and ?nq = "ndigits b q"
  note pb = powi_of_int_bounds[OF b p] and qb = powi_of_int_bounds[OF b q]
  let ?d = "?np - ?nq"
  have Q: "(0::rat) < of_int q" and P: "(0::rat) < of_int p" using q p by simp_all
  have pw: "\<And>k. 0 < ?B powi k" using B by simp
  show "of_int p / of_int q < ?B powi (?d + 1)"
  proof -
    have "of_int p * ?B powi (?nq - 1) < ?B powi ?np * ?B powi (?nq - 1)"
      using pb(2) pw by simp
    also have "\<dots> \<le> ?B powi ?np * of_int q"
      using qb(1) pw by simp
    finally have "of_int p * ?B powi (?nq - 1) < ?B powi ?np * of_int q" .
    moreover have "?B powi ?np = ?B powi (?d + 1) * ?B powi (?nq - 1)"
      using B by (simp flip: power_int_add)
    ultimately have "of_int p * ?B powi (?nq - 1) < (?B powi (?d + 1) * of_int q) * ?B powi (?nq - 1)"
      by (simp add: mult_ac)
    then have "of_int p < ?B powi (?d + 1) * of_int q" using pw[of "?nq - 1"] by (simp only: mult_less_cancel_right_pos)
    then show ?thesis using Q by (simp add: pos_divide_less_eq)
  qed
  show "?B powi (?d - 1) < of_int p / of_int q"
  proof -
    have "?B powi (?np - 1) * of_int q < ?B powi (?np - 1) * ?B powi ?nq"
      using qb(2) pw by simp
    also have "\<dots> \<le> of_int p * ?B powi ?nq"
      using pb(1) pw by simp
    finally have "?B powi (?np - 1) * of_int q < of_int p * ?B powi ?nq" .
    moreover have "?B powi (?np - 1) = ?B powi (?d - 1) * ?B powi ?nq"
      using B by (simp flip: power_int_add)
    ultimately have "(?B powi (?d - 1) * of_int q) * ?B powi ?nq < of_int p * ?B powi ?nq"
      by (simp add: mult_ac)
    then have "?B powi (?d - 1) * of_int q < of_int p" using pw[of ?nq] by (simp only: mult_less_cancel_right_pos)
    then show ?thesis using Q by (simp add: pos_less_divide_eq)
  qed
qed

lemma floor_log_bounds:
  assumes b: "1 < b" and m: "0 < m"
  shows "of_int b powi (floor_log b m) \<le> m \<and> m < of_int b powi (floor_log b m + 1)"
proof -
  obtain p q where pq: "quotient_of m = (p, q)" by (cases "quotient_of m")
  have q: "0 < q" using quotient_of_denom_pos[OF pq] .
  have meq: "m = of_int p / of_int q" using quotient_of_div[OF pq] .
  have p: "0 < p" using m q meq by (simp add: zero_less_divide_iff)
  let ?B = "of_int b :: rat"
  let ?d = "ndigits b p - ndigits b q"
  note fb = frac_log_bounds[OF b p q, folded meq]
  have fl: "floor_log b m = (if ?B powi ?d \<le> m then ?d else ?d - 1)"
    by (simp add: floor_log_def pq Let_def)
  show ?thesis
  proof (cases "?B powi ?d \<le> m")
    case True
    then show ?thesis using fl fb by simp
  next
    case False
    then show ?thesis using fl fb by simp
  qed
qed

lemma powi_mono: "(1::rat) < B \<Longrightarrow> i \<le> j \<Longrightarrow> B powi i \<le> B powi j"
  by (rule power_int_increasing) simp_all

lemma floor_log_unique:
  assumes b: "1 < b" and m: "0 < m"
    and lo: "of_int b powi e \<le> m" and hi: "m < of_int b powi (e + 1)"
  shows "floor_log b m = e"
proof -
  let ?B = "of_int b :: rat" and ?f = "floor_log b m"
  have B: "1 < ?B" using b by simp
  have fb: "?B powi ?f \<le> m" "m < ?B powi (?f + 1)" using floor_log_bounds[OF b m] by simp_all
  have "\<not> ?f + 1 \<le> e"
  proof
    assume "?f + 1 \<le> e"
    then have "?B powi (?f + 1) \<le> ?B powi e" using B by (simp add: powi_mono)
    with fb(2) lo show False by simp
  qed
  moreover have "\<not> e + 1 \<le> ?f"
  proof
    assume "e + 1 \<le> ?f"
    then have "?B powi (e + 1) \<le> ?B powi ?f" using B by (simp add: powi_mono)
    with fb(1) hi show False by simp
  qed
  ultimately show ?thesis by simp
qed
lemma floor_log_frac:
  assumes b: "1 < b" and p: "0 < p" and q: "0 < q"
  shows "floor_log b (of_int p / of_int q) =
    (if (of_int b :: rat) powi (ndigits b p - ndigits b q) \<le> of_int p / of_int q
     then ndigits b p - ndigits b q else ndigits b p - ndigits b q - 1)"
proof -
  have m: "(0::rat) < of_int p / of_int q" using p q by simp
  note fb = frac_log_bounds[OF b p q]
  show ?thesis
    by (rule floor_log_unique[OF b m]) (use fb in \<open>auto simp: not_le intro: less_imp_le\<close>)
qed

lemma ndigits_numeral:
  "ndigits b (numeral x) = (if 1 < b then ndigits b (numeral x div b) + 1 else 0)"
  "ndigits b 1 = (if 1 < b then 1 else 0)"
  "ndigits b 0 = 0"
  by (subst ndigits.simps, simp, subst ndigits.simps, simp)+

lemma floor_log_frac_eval:
  assumes "1 < b" "0 < p" "0 < q" "ndigits b p - ndigits b q = d"
  shows "floor_log b (of_int p / of_int q) = (if (of_int b :: rat) powi d \<le> of_int p / of_int q then d else d - 1)"
  using floor_log_frac[OF assms(1-3)] assms(4) by simp

lemma floor_log_numeral:
  "1 < b \<Longrightarrow> ndigits b (numeral p) - ndigits b (numeral q) = d \<Longrightarrow> floor_log b (numeral p / numeral q) =
    (if (of_int b :: rat) powi d \<le> numeral p / numeral q then d else d - 1)"
  "1 < b \<Longrightarrow> ndigits b (numeral p) - 1 = d \<Longrightarrow> floor_log b (numeral p) =
    (if (of_int b :: rat) powi d \<le> numeral p then d else d - 1)"
  "1 < b \<Longrightarrow> 1 - ndigits b (numeral q) = d \<Longrightarrow> floor_log b (1 / numeral q) =
    (if (of_int b :: rat) powi d \<le> 1 / numeral q then d else d - 1)"
  "1 < b \<Longrightarrow> floor_log b 1 = 0"
  using floor_log_frac_eval[of b "numeral p" "numeral q" d] floor_log_frac_eval[of b "numeral p" 1 d]
    floor_log_frac_eval[of b 1 "numeral q" d] floor_log_frac_eval[of b 1 1 0]
  by (simp_all add: ndigits_numeral)

lemma half_cmp:
  assumes q: "0 < (q::int)"
  shows "((of_int r :: rat) / of_int q < 1 / 2) = (2 * r < q)"
    and "((1::rat) / 2 < of_int r / of_int q) = (q < 2 * r)"
proof -
  have Q: "(0::rat) < of_int q" using q by simp
  have "((of_int r :: rat) / of_int q < 1 / 2) = ((of_int r :: rat) < 1 / 2 * of_int q)"
    using Q by (rule pos_divide_less_eq)
  also have "\<dots> = ((of_int (2 * r) :: rat) < of_int q)" by (simp add: mult.commute)
  also have "\<dots> = (2 * r < q)" by (rule of_int_less_iff)
  finally show "((of_int r :: rat) / of_int q < 1 / 2) = (2 * r < q)" .
  have "((1::rat) / 2 < of_int r / of_int q) = ((1::rat) / 2 * of_int q < of_int r)"
    using Q by (rule pos_less_divide_eq)
  also have "\<dots> = ((of_int q :: rat) < of_int (2 * r))" by (simp add: mult.commute)
  also have "\<dots> = (q < 2 * r)" by (rule of_int_less_iff)
  finally show "((1::rat) / 2 < of_int r / of_int q) = (q < 2 * r)" .
qed

lemma round_half_even_frac:
  assumes q: "0 < q" and f: "p div q = f" and r: "p mod q = r"
  shows "round_half_even (of_int p / of_int q) =
    (if 2 * r < q then f else if q < 2 * r then f + 1 else if even f then f else f + 1)"
proof -
  let ?x = "of_int p / of_int q :: rat"
  have Q: "(of_int q :: rat) \<noteq> 0" using q by simp
  have fl: "\<lfloor>?x\<rfloor> = f" using f by (simp add: floor_divide_of_int_eq)
  have "p = f * q + r" using f r by (metis div_mult_mod_eq)
  then have "(of_int p :: rat) = of_int f * of_int q + of_int r" by (simp only: of_int_add of_int_mult)
  then have "?x = of_int f + of_int r / of_int q" using Q by (simp add: add_divide_distrib)
  then have d: "?x - of_int f = of_int r / of_int q" by simp
  show ?thesis
    unfolding round_half_even_def Let_def fl d half_cmp[OF q] by (rule refl)
qed

lemma round_half_even_numeral:
  "(numeral p :: int) div numeral q = f \<Longrightarrow> (numeral p :: int) mod numeral q = r \<Longrightarrow>
   round_half_even (numeral p / numeral q) =
    (if 2 * r < numeral q then f else if numeral q < 2 * r then f + 1 else if even f then f else f + 1)"
  using round_half_even_frac[of "numeral q" "numeral p" f r] by simp

lemma round_half_even_inverse:
  "(1 :: int) div numeral q = f \<Longrightarrow> (1 :: int) mod numeral q = r \<Longrightarrow>
   round_half_even (1 / numeral q) =
    (if 2 * r < numeral q then f else if numeral q < 2 * r then f + 1 else if even f then f else f + 1)"
  using round_half_even_frac[of "numeral q" 1 f r] by simp

lemma round_half_even_of_int: "round_half_even (of_int n) = n"
  by (simp add: round_half_even_def)

lemma round_half_even_int:
  "round_half_even (numeral p) = numeral p"
  "round_half_even 1 = 1"
  "round_half_even 0 = 0"
  using round_half_even_of_int[of "numeral p"] round_half_even_of_int[of 1] round_half_even_of_int[of 0]
  by simp_all

lemma round_double_eval:
  assumes "m \<noteq> 0" "max (floor_log 2 m) (- 1022) - 52 = k" "round_half_even (m / 2 powi k) = n"
  shows "round_double s m =
    (if (2::rat) powi 1024 \<le> of_int n * 2 powi k then Infinity s
     else Finite s (of_int n * 2 powi k))"
  unfolding round_double_def Let_def assms(2) assms(3) using assms(1) by (simp only: if_False)

lemma round_double_zero: "round_double s 0 = Finite s 0"
  by (simp add: round_double_def)

lemmas num_eval = floor_log_numeral ndigits_numeral round_half_even_numeral round_half_even_int
  round_half_even_inverse round_double_eval round_double_zero

lemma floor_rat_numeral:
  "\<lfloor>numeral a / numeral b :: rat\<rfloor> = numeral a div numeral b"
  "\<lfloor>1 / numeral b :: rat\<rfloor> = 1 div numeral b"
  using floor_divide_of_int_eq[of "numeral a" "numeral b", where ?'a = rat]
    floor_divide_of_int_eq[of 1 "numeral b", where ?'a = rat]
  by simp_all

lemma digit_char_table:
  "digit_char 0 = CHR ''0''" "digit_char 1 = CHR ''1''" "digit_char 2 = CHR ''2''"
  "digit_char 3 = CHR ''3''" "digit_char 4 = CHR ''4''" "digit_char 5 = CHR ''5''"
  "digit_char 6 = CHR ''6''" "digit_char 7 = CHR ''7''" "digit_char 8 = CHR ''8''"
  "digit_char 9 = CHR ''9''"
  by (simp_all add: digit_char_def char_of_def)

lemma digits_of_numeral:
  "digits_of (numeral n) =
     (if (numeral n :: int) < 10 then [digit_char (numeral n)]
      else digits_of (numeral n div 10) @ [digit_char (numeral n mod 10)])"
  "digits_of 0 = ''0''"
  "digits_of 1 = ''1''"
  by (subst digits_of.simps, simp add: digit_char_table)+


lemma sig_round_eval:
  assumes "floor_log 10 x = e" "\<lfloor>x / 10 powi (e - int p + 1) + 1 / 2\<rfloor> = n"
  shows "sig_round p x = (if n = 10 ^ p then (10 ^ (p - 1), e + 1) else (n, e))"
  unfolding sig_round_def Let_def assms(1) assms(2) by (rule refl)

lemma shortest_at_eval:
  assumes "floor_log 10 m = e" "\<lfloor>m / 10 powi (e - int k + 1)\<rfloor> = lo"
    "round_double False (of_int lo * 10 powi (e - int k + 1)) = rl"
    "round_double False (of_int (lo + 1) * 10 powi (e - int k + 1)) = rh"
  shows "shortest_at m k =
     (if rl = Finite False m \<and> rh = Finite False m then
        Some (let c = (if m - of_int lo * 10 powi (e - int k + 1) < of_int (lo + 1) * 10 powi (e - int k + 1) - m
                          \<or> (m - of_int lo * 10 powi (e - int k + 1) = of_int (lo + 1) * 10 powi (e - int k + 1) - m \<and> even lo)
                       then lo else lo + 1)
              in if c = 10 ^ k then (c div 10, e + 2) else (c, e + 1))
      else if rl = Finite False m then Some (if lo = 10 ^ k then (lo div 10, e + 2) else (lo, e + 1))
      else if rh = Finite False m then Some (if lo + 1 = 10 ^ k then ((lo + 1) div 10, e + 2) else (lo + 1, e + 1))
      else None)"
  unfolding shortest_at_def Let_def assms(1) assms(2) assms(3) assms(4) by (rule refl)

lemma shortest_from_numeral:
  "shortest_from m k (numeral f) =
     (case shortest_at m k of Some r \<Rightarrow> r | None \<Rightarrow> shortest_from m (Suc k) (pred_numeral f))"
  by (simp add: numeral_eq_Suc)

lemmas str_eval = parseFloat_def parse_unsigned_def exponent_part_def is_white_def is_digit_def
  digits_val_def digit_val_def digits_of_numeral digit_char_table floor_rat_numeral
  sig_round_eval shortest_at_eval shortest_from_numeral shortest_def format_digits_def
  exp_notation_def Let_def


lemmas calc_eval = initialState_def inputNumber_def inputDecimal_def clear_def performOperation_def
  switchOperation_def finishOperation_def times_key_def divide_key_def zero_def js_sub_def signed_def

lemma round_half_even_ge_floor: "\<lfloor>x\<rfloor> \<le> round_half_even x"
  by (simp add: round_half_even_def Let_def)

lemma round_half_even_le_floor: "round_half_even x \<le> \<lfloor>x\<rfloor> + 1"
  by (simp add: round_half_even_def Let_def)

lemma floor_log_ge:
  assumes "0 < m" "2 powi k \<le> m"
  shows "k \<le> floor_log 2 m"
proof (rule ccontr)
  assume "\<not> k \<le> floor_log 2 m"
  then have "floor_log 2 m + 1 \<le> k" by simp
  then have "(2::rat) powi (floor_log 2 m + 1) \<le> 2 powi k" by (simp add: powi_mono)
  moreover have "m < 2 powi (floor_log 2 m + 1)" using floor_log_bounds[of 2 m] assms by simp
  ultimately show False using assms by simp
qed

lemma round_double_overflow:
  assumes "2 powi 1024 \<le> m"
  shows "round_double s m = Infinity s"
proof -
  have m: "0 < m" using assms by (smt (verit) zero_less_power_int less_le_trans zero_less_numeral)
  let ?e = "floor_log 2 m"
  have e: "1024 \<le> ?e" using floor_log_ge[OF m assms] .
  let ?q = "(2::rat) powi (?e - 52)"
  have q: "0 < ?q" by simp
  have lo: "2 powi ?e \<le> m" using floor_log_bounds[of 2 m] m by simp
  have split: "(2::rat) powi ?e = of_int (2 ^ 52) * ?q"
    using power_int_add[of "2::rat" 52 "?e - 52"] by simp
  then have "of_int (2 ^ 52) * ?q \<le> m" using lo by simp
  then have "of_int (2 ^ 52) \<le> m / ?q" using q by (simp only: pos_le_divide_eq)
  then have "2 ^ 52 \<le> \<lfloor>m / ?q\<rfloor>" by (simp only: le_floor_iff)
  then have n: "2 ^ 52 \<le> round_half_even (m / ?q)" using round_half_even_ge_floor[of "m / ?q"] by linarith
  have "(2::rat) powi 1024 \<le> 2 powi ?e" using e by (intro powi_mono) simp_all
  also have "\<dots> = of_int (2 ^ 52) * ?q" by (rule split)
  also have "\<dots> \<le> of_int (round_half_even (m / ?q)) * ?q"
    using n q by (simp only: mult_le_cancel_right_pos of_int_le_iff)
  finally have v: "(2::rat) powi 1024 \<le> of_int (round_half_even (m / ?q)) * ?q" .
  have mx: "max ?e (- 1022) = ?e" using e by simp
  show ?thesis using m v by (simp add: round_double_def Let_def mx)
qed

lemma equals_pending_noop:
  "operation st = Some ''='' \<Longrightarrow> previousValue st = Some pv \<Longrightarrow> performOperation st op = (st, [])"
  by (simp add: performOperation_def switchOperation_def times_key_def divide_key_def)

lemma step_keeps_equals:
  "operation st = Some ''='' \<Longrightarrow> previousValue st = Some pv \<Longrightarrow> e \<noteq> Clear \<Longrightarrow>
   operation (fst (step st e)) = Some ''='' \<and> previousValue (fst (step st e)) = Some pv
   \<and> snd (step st e) = []"
  by (cases e) (simp_all add: inputNumber_def inputDecimal_def equals_pending_noop)

lemma run_keeps_equals:
  "operation st = Some ''='' \<Longrightarrow> previousValue st = Some pv \<Longrightarrow> Clear \<notin> set es \<Longrightarrow>
   operation (fst (run st es)) = Some ''='' \<and> previousValue (fst (run st es)) = Some pv
   \<and> snd (run st es) = []"
proof (induction es arbitrary: st)
  case Nil
  then show ?case by simp
next
  case (Cons e es)
  then have e: "e \<noteq> Clear" and es: "Clear \<notin> set es" by auto
  note s = step_keeps_equals[OF Cons.prems(1,2) e]
  have IH: "operation (fst (run (fst (step st e)) es)) = Some ''=''
     \<and> previousValue (fst (run (fst (step st e)) es)) = Some pv
     \<and> snd (run (fst (step st e)) es) = []"
    using Cons.IH[of "fst (step st e)"] s es by simp
  show ?case using IH s by (simp add: split_beta)
qed


section \<open>Clear\<close>

text \<open>
  Claim C5. From every state (so from every reachable one) \<^verbatim>\<open>clear()\<close> gives exactly the
  initial state: display \<open>''0''\<close>, no previous value, no operation, not waiting for an
  operand. It is total and raises no notification.
\<close>

theorem clear_resets:
  "clear st = initialState
   \<and> display (clear st) = ''0''
   \<and> previousValue (clear st) = None
   \<and> operation (clear st) = None
   \<and> \<not> waitingForOperand (clear st)
   \<and> step st Clear = (initialState, [])"
  by (simp add: clear_def initialState_def)

section \<open>Pressing an operator\<close>

text \<open>
  Claim C4. With no previous value, \<^verbatim>\<open>performOperation(op)\<close>, for every \<open>op\<close> (equals
  included), stores the parsed display as previous value and \<open>op\<close> as operation, sets
  \<open>waitingForOperand\<close>, leaves the display as it is and raises no notification.
\<close>

theorem performOperation_arms:
  "previousValue st = None \<Longrightarrow>
   performOperation st op =
     (st\<lparr>previousValue := Some (parseFloat (display st)), operation := Some op,
         waitingForOperand := True\<rparr>, [])
   \<and> display (fst (performOperation st op)) = display st"
  by (simp add: performOperation_def)

theorem performOperation_arms_witness:
  "previousValue initialState = None
   \<and> performOperation initialState ''='' =
     (\<lparr>display = ''0'', previousValue = Some (Finite False 0), operation = Some ''='',
       waitingForOperand = True\<rparr>, [])
   \<and> display (fst (performOperation initialState ''='')) = ''0''"
  using performOperation_arms [of initialState "''=''"]
  by (simp add: initialState_def str_eval num_eval)

text \<open>
  Claim C2. With a pending divide and a display that parses to zero (\<^verbatim>\<open>inputValue === 0\<close>,
  which holds for both zeros, whatever the previous value is), \<^verbatim>\<open>performOperation\<close> with any
  newly pressed operator raises the one notification \<open>''Cannot divide by zero''\<close> and returns
  the state unchanged.
\<close>

theorem divide_by_zero_keeps_state:
  "previousValue st = Some pv \<Longrightarrow> operation st = Some divide_key \<Longrightarrow>
   strict_eq (parseFloat (display st)) zero \<Longrightarrow>
   performOperation st nextOperation = (st, [divideByZeroToast])
   \<and> description divideByZeroToast = ''Cannot divide by zero''"
  by (simp add: performOperation_def switchOperation_def divide_key_def times_key_def
      divideByZeroToast_def)

theorem divide_by_zero_keeps_state_witness:
  "previousValue \<lparr>display = ''0'', previousValue = Some zero, operation = Some divide_key,
       waitingForOperand = False\<rparr> = Some zero
   \<and> strict_eq (parseFloat ''0'') zero
   \<and> performOperation \<lparr>display = ''0'', previousValue = Some zero, operation = Some divide_key,
       waitingForOperand = False\<rparr> ''+''
     = (\<lparr>display = ''0'', previousValue = Some zero, operation = Some divide_key,
       waitingForOperand = False\<rparr>, [divideByZeroToast])"
  using divide_by_zero_keeps_state [of "\<lparr>display = ''0'', previousValue = Some zero,
       operation = Some divide_key, waitingForOperand = False\<rparr>" zero "''+''"]
  by (simp add: zero_def str_eval num_eval)

text \<open>
  Claim C3. When the \<^verbatim>\<open>switch\<close> over the stored operation yields a result that is not
  finite, \<^verbatim>\<open>performOperation\<close> raises the notification \<open>''Invalid calculation''\<close> and the
  new state is the initial one, so the value is neither shown nor stored.
\<close>

theorem non_finite_result_resets:
  "previousValue st = Some pv \<Longrightarrow> operation st = Some op \<Longrightarrow>
   switchOperation op (if truthy pv then pv else zero) (parseFloat (display st)) = Result r \<Longrightarrow>
   \<not> isFinite r \<Longrightarrow>
   performOperation st nextOperation = (initialState, [invalidToast])
   \<and> description invalidToast = ''Invalid calculation''
   \<and> display initialState = ''0'' \<and> previousValue initialState = None
   \<and> operation initialState = None \<and> \<not> waitingForOperand initialState"
  by (auto simp add: performOperation_def finishOperation_def clear_def invalidToast_def
      initialState_def switchOperation_def times_key_def divide_key_def split: if_splits)

theorem non_finite_result_resets_witness:
  "switchOperation times_key (Finite False (2 ^ 1023)) (parseFloat ''10'') = Result (Infinity False)
   \<and> \<not> isFinite (Infinity False)
   \<and> performOperation \<lparr>display = ''10'', previousValue = Some (Finite False (2 ^ 1023)),
       operation = Some times_key, waitingForOperand = False\<rparr> ''=''
     = (initialState, [invalidToast])"
proof -
  have p: "parseFloat ''10'' = Finite False 10"
    by (simp add: str_eval num_eval)
  have r: "switchOperation times_key (Finite False (2 ^ 1023)) (Finite False 10) = Result (Infinity False)"
    by (simp add: switchOperation_def times_key_def round_double_overflow)
  show ?thesis
    using non_finite_result_resets [of "\<lparr>display = ''10'', previousValue = Some (Finite False (2 ^ 1023)),
       operation = Some times_key, waitingForOperand = False\<rparr>" "Finite False (2 ^ 1023)" times_key
       "Infinity False" "''=''"] p r
    by simp
qed

text \<open>
  Claim C9. Pressing equals with nothing pending stores \<open>''=''\<close> as the operation next to the
  parsed display. From every state whose stored operation is \<open>''=''\<close> (with a previous
  value), \<^verbatim>\<open>performOperation\<close> with any operator returns the state unchanged and raises
  nothing: the \<^verbatim>\<open>switch\<close> leaves by \<^verbatim>\<open>default\<close>. No sequence of events without Clear changes
  the stored operation or the previous value, so this lasts until Clear.
\<close>

theorem equals_first_stays_armed:
  "(previousValue st0 = None \<longrightarrow>
      performOperation st0 ''='' =
        (st0\<lparr>previousValue := Some (parseFloat (display st0)), operation := Some ''='',
             waitingForOperand := True\<rparr>, []))
   \<and> (operation st = Some ''='' \<and> previousValue st = Some pv \<and> Clear \<notin> set es \<longrightarrow>
      performOperation st op = (st, [])
      \<and> operation (fst (run st es)) = Some ''=''
      \<and> previousValue (fst (run st es)) = Some pv
      \<and> snd (run st es) = []
      \<and> performOperation (fst (run st es)) op = (fst (run st es), [])
      \<and> operation (clear (fst (run st es))) = None
      \<and> previousValue (clear (fst (run st es))) = None)"
  using run_keeps_equals[of st pv es] equals_pending_noop
  by (auto simp add: performOperation_def clear_def initialState_def)

theorem equals_first_stays_armed_witness:
  "previousValue initialState = None
   \<and> performOperation initialState ''='' =
        (\<lparr>display = ''0'', previousValue = Some (Finite False 0), operation = Some ''='',
          waitingForOperand = True\<rparr>, [])
   \<and> Clear \<notin> set [InputNumber ''5'', PerformOperation ''+'', InputNumber ''3'', PerformOperation ''='']
   \<and> run \<lparr>display = ''0'', previousValue = Some (Finite False 0), operation = Some ''='',
          waitingForOperand = True\<rparr>
        [InputNumber ''5'', PerformOperation ''+'', InputNumber ''3'', PerformOperation ''='']
      = (\<lparr>display = ''53'', previousValue = Some (Finite False 0), operation = Some ''='',
          waitingForOperand = False\<rparr>, [])
   \<and> performOperation \<lparr>display = ''53'', previousValue = Some (Finite False 0), operation = Some ''='',
          waitingForOperand = False\<rparr> ''+''
      = (\<lparr>display = ''53'', previousValue = Some (Finite False 0), operation = Some ''='',
          waitingForOperand = False\<rparr>, [])"
proof -
  let ?a = "\<lparr>display = ''0'', previousValue = Some (Finite False 0), operation = Some ''='',
          waitingForOperand = True\<rparr>"
  let ?es = "[InputNumber ''5'', PerformOperation ''+'', InputNumber ''3'', PerformOperation ''='']"
  have arm: "parseFloat ''0'' = Finite False 0" by (simp add: str_eval num_eval)
  have r: "fst (run ?a ?es) = \<lparr>display = ''53'', previousValue = Some (Finite False 0), operation = Some ''='',
          waitingForOperand = False\<rparr>"
    by (simp add: calc_eval)
  show ?thesis
    using equals_first_stays_armed [of initialState ?a "Finite False 0" ?es "''+''"] arm r
    by (simp add: initialState_def prod_eq_iff)
qed

text \<open>
  Claim C1, as amended. With a previous value and a stored operation that is one of
  \<^verbatim>\<open>+\<close>, \<^verbatim>\<open>-\<close>, \<^verbatim>\<open>\<times>\<close>, \<^verbatim>\<open>\<div>\<close> (a divide only with a display that does not parse to zero),
  and a finite result, \<^verbatim>\<open>performOperation(newOp)\<close> applies the stored operation, not
  \<open>newOp\<close>, to \<^verbatim>\<open>previousValue || 0\<close> and the parsed display, shows the result rounded
  through \<^verbatim>\<open>toPrecision(12)\<close>, sets \<open>waitingForOperand\<close>, and on equals clears previous value
  and operation, otherwise stores the rounded result and \<open>newOp\<close>. The keys
  \<^verbatim>\<open>3 + 4 + 5 =\<close> from the initial state end with the display \<open>''12''\<close>.
\<close>

theorem performOperation_applies_stored:
  "previousValue st = Some pv \<Longrightarrow> operation st = Some op \<Longrightarrow>
   op \<in> {''+'', ''-'', times_key, divide_key} \<Longrightarrow>
   iv = parseFloat (display st) \<Longrightarrow>
   cv = (if truthy pv then pv else zero) \<Longrightarrow>
   (op = divide_key \<longrightarrow> \<not> strict_eq iv zero) \<Longrightarrow>
   r = (if op = ''+'' then js_add cv iv else if op = ''-'' then js_sub cv iv
        else if op = times_key then js_mul cv iv else js_div cv iv) \<Longrightarrow>
   isFinite r \<Longrightarrow>
   performOperation st newOp =
     (\<lparr>display = toString (parseFloat (toPrecision r 12)),
       previousValue = (if newOp = ''='' then None else Some (parseFloat (toPrecision r 12))),
       operation = (if newOp = ''='' then None else Some newOp),
       waitingForOperand = True\<rparr>, [])
   \<and> run initialState [InputNumber ''3'', PerformOperation ''+'', InputNumber ''4'',
         PerformOperation ''+'', InputNumber ''5'', PerformOperation ''='']
       = (\<lparr>display = ''12'', previousValue = None, operation = None,
           waitingForOperand = True\<rparr>, [])"
proof -
  assume a: "previousValue st = Some pv" "operation st = Some op"
    "op \<in> {''+'', ''-'', times_key, divide_key}" "iv = parseFloat (display st)"
    "cv = (if truthy pv then pv else zero)" "op = divide_key \<longrightarrow> \<not> strict_eq iv zero"
    "r = (if op = ''+'' then js_add cv iv else if op = ''-'' then js_sub cv iv
        else if op = times_key then js_mul cv iv else js_div cv iv)" "isFinite r"
  have sw: "switchOperation op cv iv = Result r"
    using a(3,6,7) by (auto simp add: switchOperation_def times_key_def divide_key_def)
  have ne: "op \<noteq> []" using a(3) by (auto simp add: times_key_def divide_key_def)
  have 1: "performOperation st newOp =
     (\<lparr>display = toString (parseFloat (toPrecision r 12)),
       previousValue = (if newOp = ''='' then None else Some (parseFloat (toPrecision r 12))),
       operation = (if newOp = ''='' then None else Some newOp),
       waitingForOperand = True\<rparr>, [])"
    using a(1,2,8) ne sw[unfolded a(4,5)]
    by (simp add: performOperation_def finishOperation_def Let_def)
  have 2: "run initialState [InputNumber ''3'', PerformOperation ''+'', InputNumber ''4'',
         PerformOperation ''+'', InputNumber ''5'', PerformOperation ''='']
       = (\<lparr>display = ''12'', previousValue = None, operation = None,
           waitingForOperand = True\<rparr>, [])"
    by (simp add: calc_eval str_eval num_eval)
  show ?thesis using 1 2 by (rule conjI)
qed

theorem performOperation_applies_stored_witness:
  "previousValue \<lparr>display = ''4'', previousValue = Some (Finite False 3), operation = Some ''+'',
       waitingForOperand = False\<rparr> = Some (Finite False 3)
   \<and> ''+'' \<in> {''+'', ''-'', times_key, divide_key}
   \<and> parseFloat ''4'' = Finite False 4
   \<and> js_add (Finite False 3) (Finite False 4) = Finite False 7
   \<and> isFinite (Finite False 7)
   \<and> performOperation \<lparr>display = ''4'', previousValue = Some (Finite False 3), operation = Some ''+'',
       waitingForOperand = False\<rparr> times_key
     = (\<lparr>display = ''7'', previousValue = Some (Finite False 7), operation = Some times_key,
         waitingForOperand = True\<rparr>, [])"
proof -
  let ?st = "\<lparr>display = ''4'', previousValue = Some (Finite False 3), operation = Some ''+'',
       waitingForOperand = False\<rparr>"
  have p: "parseFloat ''4'' = Finite False 4" by (simp add: str_eval num_eval)
  have s: "js_add (Finite False 3) (Finite False 4) = Finite False 7"
    by (simp add: signed_def num_eval)
  have f: "parseFloat (toPrecision (Finite False 7) 12) = Finite False 7"
    by (simp add: str_eval num_eval)
  have t: "toString (Finite False 7) = ''7''" by (simp add: str_eval num_eval)
  show ?thesis
    using performOperation_applies_stored [of ?st "Finite False 3" "''+''" "Finite False 4"
        "Finite False 3" "Finite False 7" times_key] p s f t
    by (simp add: times_key_def divide_key_def)
qed


text \<open>
  The claim as stated, for every state with an operation pending, fails where the stored
  operation is \<open>''=''\<close>: after equals as the first key, pressing \<^verbatim>\<open>+\<close> neither computes
  nor stores \<^verbatim>\<open>+\<close> as the operation.
\<close>

theorem pending_equals_counterexample:
  "fst (run initialState [PerformOperation ''=''])
     = \<lparr>display = ''0'', previousValue = Some (Finite False 0), operation = Some ''='',
         waitingForOperand = True\<rparr>
   \<and> performOperation \<lparr>display = ''0'', previousValue = Some (Finite False 0),
         operation = Some ''='', waitingForOperand = True\<rparr> ''+''
     = (\<lparr>display = ''0'', previousValue = Some (Finite False 0), operation = Some ''='',
         waitingForOperand = True\<rparr>, [])
   \<and> operation (fst (performOperation \<lparr>display = ''0'', previousValue = Some (Finite False 0),
         operation = Some ''='', waitingForOperand = True\<rparr> ''+'')) \<noteq> Some ''+''"
  by (simp add: calc_eval str_eval num_eval)

section \<open>Dividing by zero, then going on\<close>

text \<open>
  Claim C8, as amended. The keys \<^verbatim>\<open>5 \<div> 0\<close> from the initial state leave the display
  \<open>''0''\<close> (the divisor just typed), the previous value 5 and the pending divide. Pressing
  equals, or any operator, then raises exactly one divide-by-zero notification and changes
  nothing. The further keys \<^verbatim>\<open>\<div> 2 =\<close> end with the display \<open>''2.5''\<close>; the \<^verbatim>\<open>\<div>\<close> among them
  raises the notification once more, the display still being \<open>''0''\<close>.
\<close>

theorem divide_by_zero_sequence:
  "run initialState [InputNumber ''5'', PerformOperation divide_key, InputNumber ''0'']
     = (\<lparr>display = ''0'', previousValue = Some (Finite False 5), operation = Some divide_key,
         waitingForOperand = False\<rparr>, [])
   \<and> performOperation \<lparr>display = ''0'', previousValue = Some (Finite False 5),
         operation = Some divide_key, waitingForOperand = False\<rparr> op
     = (\<lparr>display = ''0'', previousValue = Some (Finite False 5), operation = Some divide_key,
         waitingForOperand = False\<rparr>, [divideByZeroToast])
   \<and> run \<lparr>display = ''0'', previousValue = Some (Finite False 5),
         operation = Some divide_key, waitingForOperand = False\<rparr>
       [PerformOperation divide_key, InputNumber ''2'', PerformOperation ''='']
     = (\<lparr>display = ''2.5'', previousValue = None, operation = None, waitingForOperand = True\<rparr>,
        [divideByZeroToast])"
  by (simp add: calc_eval str_eval num_eval)


text \<open>
  The claim as stated has the display stay \<open>''5''\<close> after \<^verbatim>\<open>5 \<div> 0 =\<close>; it is \<open>''0''\<close>.
\<close>

theorem divide_by_zero_display_counterexample:
  "display (fst (run initialState [InputNumber ''5'', PerformOperation divide_key,
      InputNumber ''0'', PerformOperation ''=''])) = ''0''
   \<and> display (fst (run initialState [InputNumber ''5'', PerformOperation divide_key,
      InputNumber ''0'', PerformOperation ''=''])) \<noteq> ''5''"
  by (simp add: calc_eval str_eval num_eval)

end
